theory Spec2Isabelle
  imports
    Main
    "HOL-Library.Char_ord"
    "HOL-Library.List_Lexorder"
    "HOL-Library.Sublist"
    "HOL-Library.AList"
begin

section \<open>maklogger: a shallow embedding\<close>

text \<open>
  Go strings are byte sequences, so a Go \<^verbatim>\<open>string\<close> is a \<^typ>\<open>string\<close> (a list of
  8-bit characters) and every non-ASCII literal of the source is written as its UTF-8
  bytes. \<^verbatim>\<open>fmt.Sprintf\<close> with a format made of \<^verbatim>\<open>%s\<close> verbs and literal text is the
  concatenation of the arguments and the literal pieces.
\<close>

subsection \<open>colors.go\<close>

type_synonym Color = string

type_synonym Level = int

definition LevelInfo :: Level where "LevelInfo = 0"
definition LevelSuccess :: Level where "LevelSuccess = 1"
definition LevelDebug :: Level where "LevelDebug = 2"
definition LevelCritical :: Level where "LevelCritical = 3"
definition LevelError :: Level where "LevelError = 4"
definition LevelWarn :: Level where "LevelWarn = 5"

text \<open>The byte written \<^verbatim>\<open>\033\<close> in the source.\<close>

definition ESC :: char where "ESC = CHR 0x1B"

definition Reset :: Color where "Reset = ESC # ''[0m''"
definition Bold :: Color where "Bold = ESC # ''[1m''"
definition Dim :: Color where "Dim = ESC # ''[2m''"
definition Italic :: Color where "Italic = ESC # ''[3m''"
definition Underline :: Color where "Underline = ESC # ''[4m''"
definition Blink :: Color where "Blink = ESC # ''[5m''"
definition Inverse :: Color where "Inverse = ESC # ''[7m''"
definition Hidden :: Color where "Hidden = ESC # ''[8m''"
definition Strikethrough :: Color where "Strikethrough = ESC # ''[9m''"

definition BoldWhite :: Color where "BoldWhite = ESC # ''[1;97m''"
definition Gray :: Color where "Gray = ESC # ''[90m''"
definition DarkGray :: Color where "DarkGray = ESC # ''[2;37m''"

definition Black :: Color where "Black = ESC # ''[30m''"
definition Red :: Color where "Red = ESC # ''[31m''"
definition Green :: Color where "Green = ESC # ''[32m''"
definition Yellow :: Color where "Yellow = ESC # ''[33m''"
definition Blue :: Color where "Blue = ESC # ''[34m''"
definition Magenta :: Color where "Magenta = ESC # ''[35m''"
definition Cyan :: Color where "Cyan = ESC # ''[36m''"
definition White :: Color where "White = ESC # ''[37m''"

definition BrightBlack :: Color where "BrightBlack = ESC # ''[90m''"
definition BrightRed :: Color where "BrightRed = ESC # ''[91m''"
definition BrightGreen :: Color where "BrightGreen = ESC # ''[92m''"
definition BrightYellow :: Color where "BrightYellow = ESC # ''[93m''"
definition BrightBlue :: Color where "BrightBlue = ESC # ''[94m''"
definition BrightMagenta :: Color where "BrightMagenta = ESC # ''[95m''"
definition BrightCyan :: Color where "BrightCyan = ESC # ''[96m''"
definition BrightWhite :: Color where "BrightWhite = ESC # ''[97m''"

definition BgBlack :: Color where "BgBlack = ESC # ''[40m''"
definition BgRed :: Color where "BgRed = ESC # ''[41m''"
definition BgGreen :: Color where "BgGreen = ESC # ''[42m''"
definition BgYellow :: Color where "BgYellow = ESC # ''[43m''"
definition BgBlue :: Color where "BgBlue = ESC # ''[44m''"
definition BgMagenta :: Color where "BgMagenta = ESC # ''[45m''"
definition BgCyan :: Color where "BgCyan = ESC # ''[46m''"
definition BgWhite :: Color where "BgWhite = ESC # ''[47m''"

definition BgBrightBlack :: Color where "BgBrightBlack = ESC # ''[100m''"
definition BgBrightRed :: Color where "BgBrightRed = ESC # ''[101m''"
definition BgBrightGreen :: Color where "BgBrightGreen = ESC # ''[102m''"
definition BgBrightYellow :: Color where "BgBrightYellow = ESC # ''[103m''"
definition BgBrightBlue :: Color where "BgBrightBlue = ESC # ''[104m''"
definition BgBrightMagenta :: Color where "BgBrightMagenta = ESC # ''[105m''"
definition BgBrightCyan :: Color where "BgBrightCyan = ESC # ''[106m''"
definition BgBrightWhite :: Color where "BgBrightWhite = ESC # ''[107m''"

text \<open>
  \<^verbatim>\<open>Colorize(text, fg, bg...)\<close>: the variadic \<^verbatim>\<open>bg\<close> is the list of the extra arguments;
  only its first element is read.
\<close>

fun Colorize :: "string \<Rightarrow> Color \<Rightarrow> Color list \<Rightarrow> string" where
  "Colorize text fg (b # bs) = fg @ b @ text @ Reset"
| "Colorize text fg [] = fg @ text @ Reset"

definition ColorizeIfEnabled :: "string \<Rightarrow> bool \<Rightarrow> Color \<Rightarrow> Color list \<Rightarrow> string" where
  "ColorizeIfEnabled text enabled fg bg =
     (if \<not> enabled then text else Colorize text fg bg)"


subsection \<open>Standard-library functions the source calls\<close>

definition LF :: char where "LF = CHR 0x0A"

definition DQ :: char where "DQ = CHR 0x22"

text \<open>
  \<^verbatim>\<open>strings.Split(s, sep)\<close> for a separator of one byte (the source splits on
  \<^verbatim>\<open>"."\<close> and on \<^verbatim>\<open>"\n"\<close>): the pieces of \<open>s\<close> between the separators, at
  least one piece.
\<close>

fun strings_Split :: "string \<Rightarrow> char \<Rightarrow> string list" where
  "strings_Split [] sep = [[]]"
| "strings_Split (c # cs) sep =
     (if c = sep then [] # strings_Split cs sep
      else (case strings_Split cs sep of [] \<Rightarrow> [[c]] | p # ps \<Rightarrow> (c # p) # ps))"

fun strings_Join :: "string list \<Rightarrow> string \<Rightarrow> string" where
  "strings_Join [] sep = []"
| "strings_Join [e] sep = e"
| "strings_Join (e # es) sep = e @ sep @ strings_Join es sep"

text \<open>
  \<^verbatim>\<open>strconv.Itoa\<close>: the decimal digits of an integer, with a minus sign when it is
  negative. Go's \<^verbatim>\<open>int\<close> is modelled as \<^typ>\<open>int\<close>.
\<close>

definition digit :: "nat \<Rightarrow> char" where
  "digit d = ''0123456789'' ! d"

function formatUint :: "nat \<Rightarrow> string" where
  "formatUint n = (if n < 10 then [digit n] else formatUint (n div 10) @ [digit (n mod 10)])"
  by pat_completeness auto
termination
  by (relation "measure (\<lambda>n. n)") auto

definition strconv_Itoa :: "int \<Rightarrow> string" where
  "strconv_Itoa i = (if i < 0 then CHR ''-'' # formatUint (nat (- i)) else formatUint (nat i))"

text \<open>
  \<^verbatim>\<open>filepath.Base\<close> with \<^verbatim>\<open>/\<close> as the separator: the last element of the path,
  after the trailing slashes are removed; \<^verbatim>\<open>"."\<close> for the empty path and \<^verbatim>\<open>"/"\<close>
  for a path of slashes only.
\<close>

definition filepath_Base :: "string \<Rightarrow> string" where
  "filepath_Base path =
     (if path = [] then ''.''
      else
        let stripped = rev (dropWhile (\<lambda>c. c = CHR ''/'') (rev path));
            base = rev (takeWhile (\<lambda>c. c \<noteq> CHR ''/'') (rev stripped))
        in if base = [] then ''/'' else base)"

text \<open>
  What the Go runtime and standard library supply at one call of the logger:
  \<^item> \<open>runtime_Caller skip\<close> is \<^verbatim>\<open>runtime.Caller(skip)\<close> as called inside
    \<^verbatim>\<open>getCallerInfo\<close>: the program counter, file and line of the frame, or \<open>None\<close>
    when \<^verbatim>\<open>ok\<close> is false;
  \<^item> \<open>runtime_FuncForPC pc\<close> is the name of \<^verbatim>\<open>runtime.FuncForPC(pc)\<close>, or \<open>None\<close>
    when that is \<^verbatim>\<open>nil\<close>;
  \<^item> \<open>time_Now\<close> is \<^verbatim>\<open>time.Now().Format("2006-01-02 15:04:05.000")\<close>;
  \<^item> \<open>json_string\<close> is the encoder of \<^verbatim>\<open>encoding/json\<close> for a string: the quoted
    JSON literal, with the library's escapes.
\<close>

record env =
  runtime_Caller :: "int \<Rightarrow> (nat \<times> string \<times> int) option"
  runtime_FuncForPC :: "nat \<Rightarrow> string option"
  time_Now :: string
  json_string :: "string \<Rightarrow> string"

subsection \<open>caller.go\<close>

definition getCallerInfo :: "env \<Rightarrow> int \<Rightarrow> string \<times> int \<times> string" where
  "getCallerInfo e skip =
     (case runtime_Caller e skip of
        None \<Rightarrow> (''???'', 0, ''???'')
      | Some (pc, file, line) \<Rightarrow>
          let funcName = (case runtime_FuncForPC e pc of None \<Rightarrow> ''???'' | Some name \<Rightarrow> name)
          in (filepath_Base file, line, funcName))"

subsection \<open>Values and their JSON encoding\<close>

text \<open>
  The values of type \<^verbatim>\<open>any\<close> that the model covers: \<^verbatim>\<open>nil\<close>, booleans, integers,
  strings, slices, maps with string keys (as the list of their entries), and values of a
  type that \<^verbatim>\<open>encoding/json\<close> rejects (a channel, a function, a complex number),
  with the name of that type.
\<close>

datatype val =
    GoNil
  | GoBool bool
  | GoInt int
  | GoString string
  | GoSlice "val list"
  | GoMap "(string \<times> val) list"
  | GoUnsupported string

record Field =
  Key :: string
  Value :: val

datatype json_error = UnsupportedTypeError string

fun json_error_Error :: "json_error \<Rightarrow> string" where
  "json_error_Error (UnsupportedTypeError t) = ''json: unsupported type: '' @ t"

text \<open>
  The document \<^verbatim>\<open>json.Marshal\<close> produces, before it is laid out: a scalar token, an
  array, or an object with its members in the order they are written.
\<close>

datatype json =
    JLit string
  | JArr "json list"
  | JObj "(string \<times> json) list"

fun collect_elems :: "(json_error + json) list \<Rightarrow> json_error + json list" where
  "collect_elems [] = Inr []"
| "collect_elems (Inl err # rs) = Inl err"
| "collect_elems (Inr j # rs) =
     (case collect_elems rs of Inl err \<Rightarrow> Inl err | Inr js \<Rightarrow> Inr (j # js))"

fun collect_members ::
  "(string \<Rightarrow> string) \<Rightarrow> (string \<times> (json_error + json)) list \<Rightarrow> json_error + (string \<times> json) list" where
  "collect_members q [] = Inr []"
| "collect_members q ((k, Inl err) # rs) = Inl err"
| "collect_members q ((k, Inr j) # rs) =
     (case collect_members q rs of Inl err \<Rightarrow> Inl err | Inr ms \<Rightarrow> Inr ((q k, j) # ms))"

text \<open>
  \<^verbatim>\<open>json.Marshal\<close>: a slice is written element by element, a map entry by entry with
  its keys sorted as byte strings, each key through the string encoder \<open>q\<close>; the first
  value that cannot be encoded, in the order of writing, ends the encoding with its error.
  The entries are paired with the encoding of their values before they are sorted, which
  is the same as sorting them first, and keeps the recursion under \<open>map\<close>. An empty
  slice or map is not \<^verbatim>\<open>nil\<close>: \<^verbatim>\<open>nil\<close> is \<open>GoNil\<close>.
\<close>

fun json_Marshal :: "(string \<Rightarrow> string) \<Rightarrow> val \<Rightarrow> json_error + json" where
  "json_Marshal q GoNil = Inr (JLit ''null'')"
| "json_Marshal q (GoBool b) = Inr (JLit (if b then ''true'' else ''false''))"
| "json_Marshal q (GoInt i) = Inr (JLit (strconv_Itoa i))"
| "json_Marshal q (GoString s) = Inr (JLit (q s))"
| "json_Marshal q (GoSlice vs) =
     (case collect_elems (map (json_Marshal q) vs) of
        Inl err \<Rightarrow> Inl err
      | Inr js \<Rightarrow> Inr (JArr js))"
| "json_Marshal q (GoMap kvs) =
     (case collect_members q (sort_key fst (map (\<lambda>kv. (fst kv, json_Marshal q (snd kv))) kvs)) of
        Inl err \<Rightarrow> Inl err
      | Inr ms \<Rightarrow> Inr (JObj ms))"
| "json_Marshal q (GoUnsupported t) = Inl (UnsupportedTypeError t)"

text \<open>
  \<^verbatim>\<open>json.Indent\<close>, on the document instead of its bytes: every element of a non-empty
  array or object starts on a new line made of the prefix and one indent for each level
  of nesting; the closing bracket does so too, one level up; a colon is followed by a
  space; an empty array or object stays \<^verbatim>\<open>[]\<close> or \<^verbatim>\<open>{}\<close>. The first line gets
  neither prefix nor indent. \<^verbatim>\<open>json.MarshalIndent\<close> is \<^verbatim>\<open>json.Marshal\<close> followed by
  \<^verbatim>\<open>json.Indent\<close>.
\<close>

definition json_newline :: "string \<Rightarrow> string \<Rightarrow> nat \<Rightarrow> string" where
  "json_newline pfx ind depth = LF # pfx @ concat (replicate depth ind)"

fun json_Indent :: "string \<Rightarrow> string \<Rightarrow> nat \<Rightarrow> json \<Rightarrow> string" where
  "json_Indent pfx ind depth (JLit s) = s"
| "json_Indent pfx ind depth (JArr []) = ''[]''"
| "json_Indent pfx ind depth (JArr (j # js)) =
     ''['' @ json_newline pfx ind (Suc depth) @
     strings_Join (map (json_Indent pfx ind (Suc depth)) (j # js))
       ('','' @ json_newline pfx ind (Suc depth)) @
     json_newline pfx ind depth @ '']''"
| "json_Indent pfx ind depth (JObj []) = ''{}''"
| "json_Indent pfx ind depth (JObj (m # ms)) =
     ''{'' @ json_newline pfx ind (Suc depth) @
     strings_Join (map (\<lambda>kj. fst kj @ '': '' @ json_Indent pfx ind (Suc depth) (snd kj)) (m # ms))
       ('','' @ json_newline pfx ind (Suc depth)) @
     json_newline pfx ind depth @ ''}''"

definition json_MarshalIndent ::
  "(string \<Rightarrow> string) \<Rightarrow> val \<Rightarrow> string \<Rightarrow> string \<Rightarrow> json_error + string" where
  "json_MarshalIndent q v pfx ind =
     (case json_Marshal q v of
        Inl err \<Rightarrow> Inl err
      | Inr j \<Rightarrow> Inr (json_Indent pfx ind 0 j))"

subsection \<open>maklogger.go\<close>

record MakLogger =
  colorsEnabled :: bool

text \<open>The icons and the separator of the source, as their UTF-8 bytes.\<close>

definition icon_folder :: string where
  "icon_folder = [CHR 0xF0, CHR 0x9F, CHR 0x93, CHR 0x81]"
definition icon_zap :: string where
  "icon_zap = [CHR 0xE2, CHR 0x9A, CHR 0xA1]"
definition icon_clock :: string where
  "icon_clock = [CHR 0xF0, CHR 0x9F, CHR 0x95, CHR 0x92]"
definition icon_speech :: string where
  "icon_speech = [CHR 0xF0, CHR 0x9F, CHR 0x92, CHR 0xAC]"
definition icon_chart :: string where
  "icon_chart = [CHR 0xF0, CHR 0x9F, CHR 0x93, CHR 0x8A]"
definition icon_memo :: string where
  "icon_memo = [CHR 0xF0, CHR 0x9F, CHR 0x93, CHR 0x9D]"
definition icon_check :: string where
  "icon_check = [CHR 0xE2, CHR 0x9C, CHR 0x85]"
definition icon_bug :: string where
  "icon_bug = [CHR 0xF0, CHR 0x9F, CHR 0x90, CHR 0x9B]"
definition icon_stop :: string where
  "icon_stop = [CHR 0xF0, CHR 0x9F, CHR 0x9B, CHR 0x91]"
definition icon_cross :: string where
  "icon_cross = [CHR 0xE2, CHR 0x9D, CHR 0x8C]"
definition icon_warning :: string where
  "icon_warning = [CHR 0xE2, CHR 0x9A, CHR 0xA0, CHR 0xEF, CHR 0xB8, CHR 0x8F]"
definition bar :: string where
  "bar = [CHR 0xE2, CHR 0x94, CHR 0x82]"

definition getColoredLevel :: "MakLogger \<Rightarrow> Level \<Rightarrow> string" where
  "getColoredLevel mk level =
     (if level = LevelInfo then
        ColorizeIfEnabled (icon_memo @ '' '') (colorsEnabled mk) BrightBlue [] @ '' '' @
        ColorizeIfEnabled ''INFO    '' (colorsEnabled mk) BoldWhite [BgBlue]
      else if level = LevelSuccess then
        ColorizeIfEnabled (icon_check @ '' '') (colorsEnabled mk) BrightGreen [] @ '' '' @
        ColorizeIfEnabled ''SUCCESS '' (colorsEnabled mk) BoldWhite [BgGreen]
      else if level = LevelDebug then
        ColorizeIfEnabled (icon_bug @ '' '') (colorsEnabled mk) BrightMagenta [] @ '' '' @
        ColorizeIfEnabled ''DEBUG   '' (colorsEnabled mk) BoldWhite [BgMagenta]
      else if level = LevelCritical then
        ColorizeIfEnabled (icon_stop @ '' '') (colorsEnabled mk) BrightRed [] @ '' '' @
        ColorizeIfEnabled ''CRITICAL'' (colorsEnabled mk) BoldWhite [BgBrightRed]
      else if level = LevelError then
        ColorizeIfEnabled (icon_cross @ '' '') (colorsEnabled mk) BrightRed [] @ '' '' @
        ColorizeIfEnabled ''ERROR   '' (colorsEnabled mk) BoldWhite [BgRed]
      else if level = LevelWarn then
        ColorizeIfEnabled (icon_warning @ '' '') (colorsEnabled mk) BrightYellow [] @ '' '' @
        ColorizeIfEnabled ''WARNING '' (colorsEnabled mk) Bold [BgYellow]
      else ''UNDEFINED'')"

definition getColoredMessage :: "MakLogger \<Rightarrow> Level \<Rightarrow> string \<Rightarrow> string" where
  "getColoredMessage mk level message =
     (if level = LevelInfo then ColorizeIfEnabled message (colorsEnabled mk) BrightWhite []
      else if level = LevelSuccess then ColorizeIfEnabled message (colorsEnabled mk) BrightGreen []
      else if level = LevelDebug then ColorizeIfEnabled message (colorsEnabled mk) BrightMagenta []
      else if level = LevelCritical then
        ColorizeIfEnabled message (colorsEnabled mk) BrightRed [BgBlack]
      else if level = LevelError then ColorizeIfEnabled message (colorsEnabled mk) BrightRed []
      else if level = LevelWarn then ColorizeIfEnabled message (colorsEnabled mk) BrightYellow []
      else ''UNDEFINED'')"

text \<open>
  The loop \<^verbatim>\<open>fieldMap[field.Key] = field.Value\<close> over the fields: a Go map is the
  list of its entries, one for each key, and an assignment replaces the entry of the key
  or adds one.
\<close>

definition fieldMap :: "Field list \<Rightarrow> (string \<times> val) list" where
  "fieldMap fs = foldl (\<lambda>m field. AList.update (Key field) (Value field) m) [] fs"

definition formatFieldsAsJSON :: "env \<Rightarrow> MakLogger \<Rightarrow> Field list \<Rightarrow> string" where
  "formatFieldsAsJSON e mk fs =
     (if length fs = 0 then []
      else
        (case json_MarshalIndent (json_string e) (GoMap (fieldMap fs)) ''  '' ''  '' of
           Inl err \<Rightarrow>
             ''  {'' @ [LF] @ ''    '' @ [DQ] @ ''error'' @ [DQ] @ '': '' @ [DQ] @
             ''failed to marshal fields: '' @ json_error_Error err @ [DQ] @ [LF] @ ''  }''
         | Inr jsonBytes \<Rightarrow>
             strings_Join (map (\<lambda>line. ''  '' @ line) (strings_Split jsonBytes LF)) [LF]))"

text \<open>
  \<^verbatim>\<open>log\<close> returns what it writes to the standard output, one string for each write
  (\<^verbatim>\<open>fmt.Println\<close>, then \<^verbatim>\<open>fmt.Printf\<close> when there are fields).
\<close>

definition log :: "env \<Rightarrow> MakLogger \<Rightarrow> Level \<Rightarrow> Color \<Rightarrow> string \<Rightarrow> Field list \<Rightarrow> string list" where
  "log e mk level color msg fs =
     (case getCallerInfo e 3 of (file, line, fn) \<Rightarrow>
        let timestamp = time_Now e;
            moduleParts = strings_Split fn (CHR ''.'');
            shortFn = (if length moduleParts > 0 then last moduleParts else fn);
            module =
              ColorizeIfEnabled icon_folder (colorsEnabled mk) BrightBlue [] @ '' '' @
              ColorizeIfEnabled file (colorsEnabled mk) Cyan [] @ '':'' @
              ColorizeIfEnabled (strconv_Itoa line) (colorsEnabled mk) BrightCyan [] @ '' '' @
              ColorizeIfEnabled icon_zap (colorsEnabled mk) BrightYellow [] @ '' '' @
              ColorizeIfEnabled shortFn (colorsEnabled mk) Magenta [];
            message =
              ColorizeIfEnabled (icon_clock @ '' '') (colorsEnabled mk) BrightGreen [] @ '' '' @
              ColorizeIfEnabled timestamp (colorsEnabled mk) Green [] @ '' '' @ bar @ '' '' @
              getColoredLevel mk level @ '' '' @ bar @ '' '' @
              module @ '' '' @ bar @ '' '' @
              ColorizeIfEnabled (icon_speech @ '' '') (colorsEnabled mk) BrightWhite [] @ '' '' @
              getColoredMessage mk level msg
        in (message @ [LF]) #
           (if length fs > 0 then
              [ColorizeIfEnabled (icon_chart @ '' '') (colorsEnabled mk) BrightMagenta [] @ '' '' @
               ColorizeIfEnabled ''Fields:'' (colorsEnabled mk) BrightWhite [] @ [LF] @
               ColorizeIfEnabled (formatFieldsAsJSON e mk fs) (colorsEnabled mk) BrightBlack [] @
               [LF]]
            else []))"

definition Info :: "env \<Rightarrow> MakLogger \<Rightarrow> string \<Rightarrow> Field list \<Rightarrow> string list" where
  "Info e mk msg fs = log e mk LevelInfo Yellow msg fs"

definition Warn :: "env \<Rightarrow> MakLogger \<Rightarrow> string \<Rightarrow> Field list \<Rightarrow> string list" where
  "Warn e mk msg fs = log e mk LevelWarn Yellow msg fs"

definition Error :: "env \<Rightarrow> MakLogger \<Rightarrow> string \<Rightarrow> Field list \<Rightarrow> string list" where
  "Error e mk msg fs = log e mk LevelError Red msg fs"

definition Success :: "env \<Rightarrow> MakLogger \<Rightarrow> string \<Rightarrow> Field list \<Rightarrow> string list" where
  "Success e mk msg fs = log e mk LevelSuccess Red msg fs"

definition Debug :: "env \<Rightarrow> MakLogger \<Rightarrow> string \<Rightarrow> Field list \<Rightarrow> string list" where
  "Debug e mk msg fs = log e mk LevelDebug Red msg fs"

definition Critical :: "env \<Rightarrow> MakLogger \<Rightarrow> string \<Rightarrow> Field list \<Rightarrow> string list" where
  "Critical e mk msg fs = log e mk LevelCritical Red msg fs"

subsection \<open>Definitions used to state the properties\<close>

text \<open>A text with \<open>p\<close> inserted after each of its line breaks.\<close>

definition indent_lines :: "string \<Rightarrow> string \<Rightarrow> string" where
  "indent_lines p s = concat (map (\<lambda>c. if c = LF then LF # p else [c]) s)"

text \<open>
  The field sequence with duplicate keys collapsed to their last occurrence, in the words
  of the specification: a field is dropped when a later field has its key.
\<close>

fun collapse_last :: "Field list \<Rightarrow> Field list" where
  "collapse_last [] = []"
| "collapse_last (f # fs) =
     (if Key f \<in> Key ` set fs then collapse_last fs else f # collapse_last fs)"

text \<open>
  An environment to run the model in: the logger is called from line 15 of
  \<^verbatim>\<open>/home/app/main.go\<close>, in \<^verbatim>\<open>main.main\<close>; the strings that are encoded need no
  escape, so their JSON literal is the string between double quotes.
\<close>

definition quote_plain :: "string \<Rightarrow> string" where
  "quote_plain s = DQ # s @ [DQ]"

definition env_example :: env where
  "env_example =
     \<lparr>runtime_Caller = (\<lambda>skip. if skip = 3 then Some (7, ''/home/app/main.go'', 15) else None),
      runtime_FuncForPC = (\<lambda>pc. if pc = 7 then Some ''main.main'' else None),
      time_Now = ''2025-09-02 15:30:45.123'',
      json_string = quote_plain\<rparr>"

section \<open>The color model\<close>

text \<open>
  C4. For every text, foreground color and optional background color,
  \<^verbatim>\<open>ColorizeIfEnabled\<close> with \<^verbatim>\<open>enabled = false\<close> returns the text unchanged; with
  \<^verbatim>\<open>enabled = true\<close> it returns the foreground escape, then the background escape if
  one is given, the text and the reset escape, which differs from the text and contains
  it as a substring.
\<close>

theorem ColorizeIfEnabled_gated:
  "ColorizeIfEnabled text False fg bg = text \<and>
   ColorizeIfEnabled text True fg [] = fg @ text @ Reset \<and>
   ColorizeIfEnabled text True fg (b # bs) = fg @ b @ text @ Reset \<and>
   ColorizeIfEnabled text True fg bg \<noteq> text \<and>
   sublist text (ColorizeIfEnabled text True fg bg)"
proof -
  have len: "length (ColorizeIfEnabled text True fg bg) > length text"
    by (cases bg) (simp_all add: ColorizeIfEnabled_def Reset_def)
  have sub: "sublist text (ColorizeIfEnabled text True fg bg)"
  proof (cases bg)
    case Nil
    then show ?thesis
      by (simp add: ColorizeIfEnabled_def)
  next
    case (Cons c cs)
    have "sublist text ((fg @ c) @ text @ Reset)"
      by (rule sublist_appendI)
    with Cons show ?thesis
      by (simp add: ColorizeIfEnabled_def)
  qed
  from len have "ColorizeIfEnabled text True fg bg \<noteq> text"
    by auto
  with sub show ?thesis
    by (simp add: ColorizeIfEnabled_def)
qed

text \<open>
  C10. \<^verbatim>\<open>Gray\<close> and \<^verbatim>\<open>BrightBlack\<close> are the same escape sequence, \<^verbatim>\<open>\033[90m\<close>, so
  colorizing a text with one gives the same bytes as colorizing it with the other.
\<close>

theorem Gray_is_BrightBlack:
  "Gray = ESC # ''[90m'' \<and> BrightBlack = ESC # ''[90m'' \<and>
   Colorize text Gray bg = Colorize text BrightBlack bg \<and>
   ColorizeIfEnabled text enabled Gray bg = ColorizeIfEnabled text enabled BrightBlack bg"
  by (simp add: Gray_def BrightBlack_def ColorizeIfEnabled_def)

section \<open>Helper lemmas\<close>

lemma ColorizeIfEnabled_off [simp]: "ColorizeIfEnabled text False fg bg = text"
  by (simp add: ColorizeIfEnabled_def)

lemma strings_Split_not_Nil [simp]: "strings_Split s sep \<noteq> []"
  by (induction s) (auto split: list.splits)

lemma set_last_strings_Split: "set (last (strings_Split s sep)) \<subseteq> set s"
  by (induction s) (auto split: list.splits)

lemma formatUint_digit: "n < 10 \<Longrightarrow> formatUint n = [digit n]"
  by simp

lemma formatUint_more: "10 \<le> n \<Longrightarrow> formatUint n = formatUint (n div 10) @ [digit (n mod 10)]"
  by simp

declare formatUint.simps [simp del]

lemma digit_in_digits: "d < 10 \<Longrightarrow> digit d \<in> set ''0123456789''"
  unfolding digit_def by (rule nth_mem) simp

lemma set_formatUint: "set (formatUint n) \<subseteq> set ''0123456789''"
proof (induction n rule: formatUint.induct)
  case (1 n)
  show ?case
  proof (cases "n < 10")
    case True
    then show ?thesis
      using digit_in_digits [of n] by (simp add: formatUint_digit)
  next
    case False
    have "n mod 10 < 10" by simp
    then have "digit (n mod 10) \<in> set ''0123456789''"
      by (rule digit_in_digits)
    with False 1 show ?thesis
      by (simp add: formatUint_more)
  qed
qed

lemma ESC_notin_Itoa [simp]: "ESC \<notin> set (strconv_Itoa i)"
proof -
  have "ESC \<notin> set ''0123456789''" by (simp add: ESC_def)
  with set_formatUint have "\<And>n. ESC \<notin> set (formatUint n)" by blast
  then show ?thesis by (simp add: strconv_Itoa_def ESC_def)
qed

lemmas icon_defs = icon_folder_def icon_zap_def icon_clock_def icon_speech_def icon_chart_def
  icon_memo_def icon_check_def icon_bug_def icon_stop_def icon_cross_def icon_warning_def bar_def
lemmas level_defs = LevelInfo_def LevelSuccess_def LevelDebug_def LevelCritical_def LevelError_def LevelWarn_def

lemma log_first_write:
  assumes "getCallerInfo e 3 = (file, line, fn)"
  shows "log e mk level color msg fs =
   (ColorizeIfEnabled (icon_clock @ '' '') (colorsEnabled mk) BrightGreen [] @ '' '' @
    ColorizeIfEnabled (time_Now e) (colorsEnabled mk) Green [] @ '' '' @ bar @ '' '' @
    getColoredLevel mk level @ '' '' @ bar @ '' '' @
    (ColorizeIfEnabled icon_folder (colorsEnabled mk) BrightBlue [] @ '' '' @
     ColorizeIfEnabled file (colorsEnabled mk) Cyan [] @ '':'' @
     ColorizeIfEnabled (strconv_Itoa line) (colorsEnabled mk) BrightCyan [] @ '' '' @
     ColorizeIfEnabled icon_zap (colorsEnabled mk) BrightYellow [] @ '' '' @
     ColorizeIfEnabled (last (strings_Split fn (CHR ''.''))) (colorsEnabled mk) Magenta []) @
    '' '' @ bar @ '' '' @
    ColorizeIfEnabled (icon_speech @ '' '') (colorsEnabled mk) BrightWhite [] @ '' '' @
    getColoredMessage mk level msg @ [LF]) #
   (if fs = [] then []
    else [ColorizeIfEnabled (icon_chart @ '' '') (colorsEnabled mk) BrightMagenta [] @ '' '' @
          ColorizeIfEnabled ''Fields:'' (colorsEnabled mk) BrightWhite [] @ [LF] @
          ColorizeIfEnabled (formatFieldsAsJSON e mk fs) (colorsEnabled mk) BrightBlack [] @ [LF]])"
  using assms by (simp add: log_def Let_def)

section \<open>The line renderer\<close>

lemma getColoredLevel_plain:
  assumes "\<not> colorsEnabled mk"
  shows "getColoredLevel mk LevelInfo = icon_memo @ ''  INFO    ''"
    and "getColoredLevel mk LevelSuccess = icon_check @ ''  SUCCESS ''"
    and "getColoredLevel mk LevelDebug = icon_bug @ ''  DEBUG   ''"
    and "getColoredLevel mk LevelWarn = icon_warning @ ''  WARNING ''"
    and "getColoredLevel mk LevelError = icon_cross @ ''  ERROR   ''"
    and "getColoredLevel mk LevelCritical = icon_stop @ ''  CRITICAL''"
  using assms by (simp_all add: getColoredLevel_def level_defs)

lemma getColoredMessage_plain:
  assumes "\<not> colorsEnabled mk"
    and "level \<in> {LevelInfo, LevelSuccess, LevelDebug, LevelWarn, LevelError, LevelCritical}"
  shows "getColoredMessage mk level M = M"
  using assms by (auto simp add: getColoredMessage_def)

lemma ESC_notin_getColoredLevel_plain:
  assumes "\<not> colorsEnabled mk"
  shows "ESC \<notin> set (getColoredLevel mk level)"
  using assms by (simp add: getColoredLevel_def icon_defs ESC_def)

text \<open>
  C1, as amended. For every level of the fixed set and every message \<open>M\<close>, a call with
  colors disabled writes first one string: the clock icon and the timestamp, the level
  segment, the location segment, and the speech-bubble icon followed by \<open>M\<close>, joined by
  the separator \<^verbatim>\<open>" | "\<close> (with the box-drawing bar) and ended by a newline. The level
  segment is the icon and the literal label of the level, the line contains it and
  contains \<open>M\<close>, and the line has an escape byte only if the timestamp, the file name,
  the function name or \<open>M\<close> has one: the logger adds none.
\<close>

theorem log_plain_line:
  assumes plain: "\<not> colorsEnabled mk"
    and level: "level \<in> {LevelInfo, LevelSuccess, LevelDebug, LevelWarn, LevelError, LevelCritical}"
    and caller: "getCallerInfo e 3 = (file, line, fn)"
  shows "hd (log e mk level color M fs) =
           icon_clock @ ''  '' @ time_Now e @ '' '' @ bar @ '' '' @
           getColoredLevel mk level @ '' '' @ bar @ '' '' @
           icon_folder @ '' '' @ file @ '':'' @ strconv_Itoa line @ '' '' @ icon_zap @ '' '' @
           last (strings_Split fn (CHR ''.'')) @ '' '' @ bar @ '' '' @
           icon_speech @ ''  '' @ M @ [LF] \<and>
         log e mk level color M [] = [hd (log e mk level color M fs)] \<and>
         getColoredLevel mk LevelInfo = icon_memo @ ''  INFO    '' \<and>
         getColoredLevel mk LevelSuccess = icon_check @ ''  SUCCESS '' \<and>
         getColoredLevel mk LevelDebug = icon_bug @ ''  DEBUG   '' \<and>
         getColoredLevel mk LevelWarn = icon_warning @ ''  WARNING '' \<and>
         getColoredLevel mk LevelError = icon_cross @ ''  ERROR   '' \<and>
         getColoredLevel mk LevelCritical = icon_stop @ ''  CRITICAL'' \<and>
         sublist (getColoredLevel mk level) (hd (log e mk level color M fs)) \<and>
         sublist M (hd (log e mk level color M fs)) \<and>
         (ESC \<in> set (hd (log e mk level color M fs)) \<longleftrightarrow>
            ESC \<in> set (time_Now e) \<union> set file \<union> set (last (strings_Split fn (CHR ''.''))) \<union> set M)"
proof -
  let ?line = "hd (log e mk level color M fs)"
  let ?pre1 = "icon_clock @ ''  '' @ time_Now e @ '' '' @ bar @ '' ''"
  let ?mid = "'' '' @ bar @ '' '' @
           icon_folder @ '' '' @ file @ '':'' @ strconv_Itoa line @ '' '' @ icon_zap @ '' '' @
           last (strings_Split fn (CHR ''.'')) @ '' '' @ bar @ '' '' @
           icon_speech @ ''  ''"
  from plain level have msg: "getColoredMessage mk level M = M"
    by (rule getColoredMessage_plain)
  have line: "?line = ?pre1 @ getColoredLevel mk level @ ?mid @ M @ [LF]"
    using plain msg by (simp add: log_first_write [OF caller])
  have one: "log e mk level color M [] = [?line]"
    by (simp add: log_first_write [OF caller])
  have sub_level: "sublist (getColoredLevel mk level) ?line"
    unfolding line by (rule sublist_appendI)
  have "sublist M ((?pre1 @ getColoredLevel mk level @ ?mid) @ M @ [LF])"
    by (rule sublist_appendI)
  then have sub_M: "sublist M ?line"
    unfolding line by simp
  have esc: "ESC \<in> set ?line \<longleftrightarrow>
      ESC \<in> set (time_Now e) \<union> set file \<union> set (last (strings_Split fn (CHR ''.''))) \<union> set M"
    unfolding line using ESC_notin_getColoredLevel_plain [OF plain, of level] ESC_notin_Itoa [of line]
    by (auto simp add: icon_defs ESC_def LF_def)
  from line one sub_level sub_M esc getColoredLevel_plain [OF plain] show ?thesis
    by simp
qed

lemmas Itoa_eval = strconv_Itoa_def formatUint_digit formatUint_more digit_def

lemma time_Now_env_example: "time_Now env_example = ''2025-09-02 15:30:45.123''"
  by (simp add: env_example_def)

lemma getCallerInfo_env_example: "getCallerInfo env_example 3 = (''main.go'', 15, ''main.main'')"
  by (simp add: getCallerInfo_def env_example_def filepath_Base_def)

theorem log_plain_line_witness:
  "\<not> colorsEnabled \<lparr>colorsEnabled = False\<rparr> \<and>
   LevelWarn \<in> {LevelInfo, LevelSuccess, LevelDebug, LevelWarn, LevelError, LevelCritical} \<and>
   getCallerInfo env_example 3 = (''main.go'', 15, ''main.main'') \<and>
   hd (log env_example \<lparr>colorsEnabled = False\<rparr> LevelWarn Yellow ''disk almost full'' []) =
     icon_clock @ ''  2025-09-02 15:30:45.123 '' @ bar @ '' '' @ icon_warning @ ''  WARNING  '' @
     bar @ '' '' @ icon_folder @ '' main.go:15 '' @ icon_zap @ '' main '' @ bar @ '' '' @
     icon_speech @ ''  disk almost full'' @ [LF] \<and>
   ESC \<notin> set (hd (log env_example \<lparr>colorsEnabled = False\<rparr> LevelWarn Yellow ''disk almost full'' []))"
proof -
  have h1: "\<not> colorsEnabled \<lparr>colorsEnabled = False\<rparr>" by simp
  have h2: "LevelWarn \<in> {LevelInfo, LevelSuccess, LevelDebug, LevelWarn, LevelError, LevelCritical}"
    by simp
  note h3 = getCallerInfo_env_example
  note T = log_plain_line [OF h1 h2 h3, of Yellow "''disk almost full''" "[]"]
  note line = T [THEN conjunct1]
  note warn = T [THEN conjunct2, THEN conjunct2, THEN conjunct2, THEN conjunct2, THEN conjunct2,
    THEN conjunct1]
  note esc = T [THEN conjunct2, THEN conjunct2, THEN conjunct2, THEN conjunct2, THEN conjunct2,
    THEN conjunct2, THEN conjunct2, THEN conjunct2, THEN conjunct2, THEN conjunct2]
  have shortFn: "last (strings_Split ''main.main'' (CHR ''.'')) = ''main''"
    by simp
  have no_esc: "ESC \<notin> set (hd (log env_example \<lparr>colorsEnabled = False\<rparr> LevelWarn Yellow
      ''disk almost full'' []))"
    unfolding esc shortFn by (simp add: time_Now_env_example ESC_def)
  have shown: "hd (log env_example \<lparr>colorsEnabled = False\<rparr> LevelWarn Yellow ''disk almost full'' []) =
     icon_clock @ ''  2025-09-02 15:30:45.123 '' @ bar @ '' '' @ icon_warning @ ''  WARNING  '' @
     bar @ '' '' @ icon_folder @ '' main.go:15 '' @ icon_zap @ '' main '' @ bar @ '' '' @
     icon_speech @ ''  disk almost full'' @ [LF]"
    unfolding line warn shortFn by (simp add: time_Now_env_example Itoa_eval)
  from h1 h2 h3 shown no_esc show ?thesis
    by simp
qed

text \<open>
  C1 as stated fails for a message that carries an escape sequence itself: it is written
  unchanged, so the line has an escape byte.
\<close>

theorem log_plain_line_escape_counterexample:
  "ESC \<in> set (hd (log env_example \<lparr>colorsEnabled = False\<rparr> LevelInfo Yellow (ESC # ''[31mred'') []))"
  by (simp add: log_first_write [OF getCallerInfo_env_example] getColoredMessage_def)

text \<open>
  C5. For every level value outside the fixed set and every message, the level tag and
  the message segment are both the text \<^verbatim>\<open>UNDEFINED\<close>, and the call still writes its
  line (and the block of the fields, when there are fields).
\<close>

theorem log_undefined_level:
  assumes level: "level \<notin> {LevelInfo, LevelSuccess, LevelDebug, LevelWarn, LevelError, LevelCritical}"
    and caller: "getCallerInfo e 3 = (file, line, fn)"
  shows "getColoredLevel mk level = ''UNDEFINED'' \<and>
         getColoredMessage mk level msg = ''UNDEFINED'' \<and>
         log e mk level color msg fs =
           (ColorizeIfEnabled (icon_clock @ '' '') (colorsEnabled mk) BrightGreen [] @ '' '' @
            ColorizeIfEnabled (time_Now e) (colorsEnabled mk) Green [] @ '' '' @ bar @ '' '' @
            ''UNDEFINED'' @ '' '' @ bar @ '' '' @
            (ColorizeIfEnabled icon_folder (colorsEnabled mk) BrightBlue [] @ '' '' @
             ColorizeIfEnabled file (colorsEnabled mk) Cyan [] @ '':'' @
             ColorizeIfEnabled (strconv_Itoa line) (colorsEnabled mk) BrightCyan [] @ '' '' @
             ColorizeIfEnabled icon_zap (colorsEnabled mk) BrightYellow [] @ '' '' @
             ColorizeIfEnabled (last (strings_Split fn (CHR ''.''))) (colorsEnabled mk) Magenta []) @
            '' '' @ bar @ '' '' @
            ColorizeIfEnabled (icon_speech @ '' '') (colorsEnabled mk) BrightWhite [] @ '' '' @
            ''UNDEFINED'' @ [LF]) #
           (if fs = [] then []
            else [ColorizeIfEnabled (icon_chart @ '' '') (colorsEnabled mk) BrightMagenta [] @ '' '' @
                  ColorizeIfEnabled ''Fields:'' (colorsEnabled mk) BrightWhite [] @ [LF] @
                  ColorizeIfEnabled (formatFieldsAsJSON e mk fs) (colorsEnabled mk) BrightBlack [] @
                  [LF]])"
proof -
  from level have tag: "getColoredLevel mk level = ''UNDEFINED''"
    by (simp add: getColoredLevel_def)
  from level have body: "getColoredMessage mk level msg = ''UNDEFINED''"
    by (simp add: getColoredMessage_def)
  show ?thesis
    unfolding log_first_write [OF caller] tag body by simp
qed

theorem log_undefined_level_witness:
  "(6::int) \<notin> {LevelInfo, LevelSuccess, LevelDebug, LevelWarn, LevelError, LevelCritical} \<and>
   getCallerInfo env_example 3 = (''main.go'', 15, ''main.main'') \<and>
   log env_example \<lparr>colorsEnabled = False\<rparr> 6 Red ''lost'' [] =
     [icon_clock @ ''  2025-09-02 15:30:45.123 '' @ bar @ '' UNDEFINED '' @ bar @ '' '' @
      icon_folder @ '' main.go:15 '' @ icon_zap @ '' main '' @ bar @ '' '' @ icon_speech @
      ''  UNDEFINED'' @ [LF]]"
proof -
  have h1: "(6::int) \<notin> {LevelInfo, LevelSuccess, LevelDebug, LevelWarn, LevelError, LevelCritical}"
    by (simp add: level_defs)
  note h2 = getCallerInfo_env_example
  show ?thesis
    using h1 h2 log_undefined_level [OF h1 h2, of "\<lparr>colorsEnabled = False\<rparr>" "''lost''" Red "[]"]
    by (simp add: time_Now_env_example Itoa_eval)
qed

text \<open>
  C6. When \<^verbatim>\<open>runtime.Caller\<close> does not find the frame at \<open>skip\<close>,
  \<^verbatim>\<open>getCallerInfo\<close> returns the triple \<^verbatim>\<open>("???", 0, "???")\<close>; when that happens at
  the depth \<^verbatim>\<open>log\<close> asks for, the line is written with \<^verbatim>\<open>???:0\<close> and \<^verbatim>\<open>???\<close> as its
  location.
\<close>

theorem getCallerInfo_sentinel:
  assumes "runtime_Caller e skip = None"
  shows "getCallerInfo e skip = (''???'', 0, ''???'') \<and>
         (skip = 3 \<longrightarrow>
          hd (log e mk level color msg fs) =
            ColorizeIfEnabled (icon_clock @ '' '') (colorsEnabled mk) BrightGreen [] @ '' '' @
            ColorizeIfEnabled (time_Now e) (colorsEnabled mk) Green [] @ '' '' @ bar @ '' '' @
            getColoredLevel mk level @ '' '' @ bar @ '' '' @
            (ColorizeIfEnabled icon_folder (colorsEnabled mk) BrightBlue [] @ '' '' @
             ColorizeIfEnabled ''???'' (colorsEnabled mk) Cyan [] @ '':'' @
             ColorizeIfEnabled ''0'' (colorsEnabled mk) BrightCyan [] @ '' '' @
             ColorizeIfEnabled icon_zap (colorsEnabled mk) BrightYellow [] @ '' '' @
             ColorizeIfEnabled ''???'' (colorsEnabled mk) Magenta []) @
            '' '' @ bar @ '' '' @
            ColorizeIfEnabled (icon_speech @ '' '') (colorsEnabled mk) BrightWhite [] @ '' '' @
            getColoredMessage mk level msg @ [LF])"
proof -
  from assms have sentinel: "getCallerInfo e skip = (''???'', 0, ''???'')"
    by (simp add: getCallerInfo_def)
  have zero: "strconv_Itoa 0 = ''0''"
    by (simp add: Itoa_eval)
  show ?thesis
  proof (intro conjI impI)
    show "getCallerInfo e skip = (''???'', 0, ''???'')"
      by (rule sentinel)
  next
    assume "skip = 3"
    with sentinel have "getCallerInfo e 3 = (''???'', 0, ''???'')"
      by simp
    then show "hd (log e mk level color msg fs) =
            ColorizeIfEnabled (icon_clock @ '' '') (colorsEnabled mk) BrightGreen [] @ '' '' @
            ColorizeIfEnabled (time_Now e) (colorsEnabled mk) Green [] @ '' '' @ bar @ '' '' @
            getColoredLevel mk level @ '' '' @ bar @ '' '' @
            (ColorizeIfEnabled icon_folder (colorsEnabled mk) BrightBlue [] @ '' '' @
             ColorizeIfEnabled ''???'' (colorsEnabled mk) Cyan [] @ '':'' @
             ColorizeIfEnabled ''0'' (colorsEnabled mk) BrightCyan [] @ '' '' @
             ColorizeIfEnabled icon_zap (colorsEnabled mk) BrightYellow [] @ '' '' @
             ColorizeIfEnabled ''???'' (colorsEnabled mk) Magenta []) @
            '' '' @ bar @ '' '' @
            ColorizeIfEnabled (icon_speech @ '' '') (colorsEnabled mk) BrightWhite [] @ '' '' @
            getColoredMessage mk level msg @ [LF]"
      by (simp add: log_first_write zero)
  qed
qed

theorem getCallerInfo_sentinel_witness:
  "runtime_Caller env_example 4 = None \<and>
   getCallerInfo env_example 4 = (''???'', 0, ''???'') \<and>
   runtime_Caller (env_example\<lparr>runtime_Caller := \<lambda>skip. None\<rparr>) 3 = None \<and>
   hd (log (env_example\<lparr>runtime_Caller := \<lambda>skip. None\<rparr>) \<lparr>colorsEnabled = False\<rparr>
         LevelInfo Yellow ''started'' []) =
     icon_clock @ ''  2025-09-02 15:30:45.123 '' @ bar @ '' '' @ icon_memo @ ''  INFO     '' @
     bar @ '' '' @ icon_folder @ '' ???:0 '' @ icon_zap @ '' ??? '' @ bar @ '' '' @
     icon_speech @ ''  started'' @ [LF]"
proof -
  have h1: "runtime_Caller env_example 4 = None"
    by (simp add: env_example_def)
  have h2: "runtime_Caller (env_example\<lparr>runtime_Caller := \<lambda>skip. None\<rparr>) 3 = None"
    by simp
  show ?thesis
    using h1 h2 getCallerInfo_sentinel [OF h1]
      getCallerInfo_sentinel [OF h2, of "\<lparr>colorsEnabled = False\<rparr>" LevelInfo Yellow "''started''" "[]"]
    by (simp add: time_Now_env_example getColoredLevel_def getColoredMessage_def)
qed

text \<open>
  C8. Serializing no field gives the empty text, and \<^verbatim>\<open>log\<close> writes the block of the
  fields (chart icon, \<^verbatim>\<open>Fields:\<close>, the serialized fields) as a second write exactly
  when there is at least one field.
\<close>

theorem fields_block_iff:
  "formatFieldsAsJSON e mk [] = [] \<and>
   log e mk level color msg fs =
     hd (log e mk level color msg []) #
     (if fs = [] then []
      else [ColorizeIfEnabled (icon_chart @ '' '') (colorsEnabled mk) BrightMagenta [] @ '' '' @
            ColorizeIfEnabled ''Fields:'' (colorsEnabled mk) BrightWhite [] @ [LF] @
            ColorizeIfEnabled (formatFieldsAsJSON e mk fs) (colorsEnabled mk) BrightBlack [] @
            [LF]]) \<and>
   (length (log e mk level color msg fs) = 2 \<longleftrightarrow> fs \<noteq> []) \<and>
   (length (log e mk level color msg fs) = 1 \<longleftrightarrow> fs = [])"
proof -
  obtain f l g where caller: "getCallerInfo e 3 = (f, l, g)"
    by (cases "getCallerInfo e 3") auto
  show ?thesis
    by (simp add: log_first_write [OF caller] formatFieldsAsJSON_def)
qed

section \<open>The field serializer\<close>

subsection \<open>Lines\<close>

lemma strings_Join_Cons: "es \<noteq> [] \<Longrightarrow> strings_Join (e # es) sep = e @ sep @ strings_Join es sep"
  by (cases es) simp_all

lemma strings_Join_append_head: "strings_Join ((a @ b) # es) sep = a @ strings_Join (b # es) sep"
  by (cases es) simp_all

lemma indent_lines_Nil [simp]: "indent_lines p [] = []"
  by (simp add: indent_lines_def)

lemma indent_lines_Cons:
  "indent_lines p (c # cs) = (if c = LF then LF # p else [c]) @ indent_lines p cs"
  by (simp add: indent_lines_def)

lemma indent_lines_append [simp]: "indent_lines p (a @ b) = indent_lines p a @ indent_lines p b"
  by (simp add: indent_lines_def)

lemma indent_lines_id: "LF \<notin> set s \<Longrightarrow> indent_lines p s = s"
  by (induction s) (auto simp add: indent_lines_Cons)

lemma indent_lines_Join:
  "indent_lines p (strings_Join xs sep) = strings_Join (map (indent_lines p) xs) (indent_lines p sep)"
  by (induction xs sep rule: strings_Join.induct) simp_all

lemma Split_Join_lines:
  "strings_Join (map (\<lambda>line. p @ line) (strings_Split s LF)) [LF] = p @ indent_lines p s"
proof (induction s)
  case Nil
  show ?case by simp
next
  case (Cons c cs)
  obtain h t where split: "strings_Split cs LF = h # t"
    by (cases "strings_Split cs LF") simp_all
  show ?case
  proof (cases "c = LF")
    case True
    then show ?thesis
      using Cons by (simp add: strings_Join_Cons indent_lines_Cons)
  next
    case False
    have "strings_Join (map (\<lambda>line. p @ line) ((c # h) # t)) [LF] =
          (p @ [c]) @ strings_Join (h # map (\<lambda>line. p @ line) t) [LF]"
      using strings_Join_append_head [of "p @ [c]" h "map (\<lambda>line. p @ line) t" "[LF]"] by simp
    moreover have "p @ strings_Join (h # map (\<lambda>line. p @ line) t) [LF] = p @ indent_lines p cs"
      using Cons split strings_Join_append_head [of p h "map (\<lambda>line. p @ line) t" "[LF]"] by simp
    ultimately show ?thesis
      using False split by (simp add: indent_lines_Cons)
  qed
qed

lemma sublist_strings_Join: "x \<in> set xs \<Longrightarrow> sublist x (strings_Join xs sep)"
proof (induction xs sep rule: strings_Join.induct)
  case (1 sep)
  then show ?case by simp
next
  case (2 e sep)
  then show ?case by simp
next
  case (3 e v va sep)
  show ?case
  proof (cases "x = e")
    case True
    then show ?thesis by simp
  next
    case False
    with 3 have "sublist x (strings_Join (v # va) sep)" by simp
    then show ?thesis
      by (simp add: sublist_append)
  qed
qed

subsection \<open>The map of the fields\<close>

lemma distinct_foldl_update:
  "distinct (map fst m) \<Longrightarrow>
   distinct (map fst (foldl (\<lambda>m field. AList.update (Key field) (Value field) m) m fs))"
  by (induction fs arbitrary: m) (simp_all add: distinct_update)

lemma distinct_fieldMap: "distinct (map fst (fieldMap fs))"
  by (simp add: fieldMap_def distinct_foldl_update)

lemma map_of_foldl_update:
  "map_of (foldl (\<lambda>m field. AList.update (Key field) (Value field) m) m fs) =
   map_of m ++ map_of (rev (map (\<lambda>f. (Key f, Value f)) fs))"
proof (induction fs arbitrary: m)
  case Nil
  show ?case by simp
next
  case (Cons f fs)
  show ?case
    by (simp add: Cons update_conv' map_add_upd_left fun_eq_iff map_add_def split: option.splits)
qed

lemma map_of_fieldMap: "map_of (fieldMap fs) = map_of (rev (map (\<lambda>f. (Key f, Value f)) fs))"
  by (simp add: fieldMap_def map_of_foldl_update)

lemma keys_fieldMap: "fst ` set (fieldMap fs) = Key ` set fs"
proof -
  have "dom (map_of (fieldMap fs)) = Key ` set fs"
    unfolding map_of_fieldMap by (simp add: dom_map_of_conv_image_fst image_image)
  then show ?thesis
    by (simp add: dom_map_of_conv_image_fst)
qed

lemma fieldMap_not_Nil: "fs \<noteq> [] \<Longrightarrow> fieldMap fs \<noteq> []"
  using keys_fieldMap [of fs] by (cases fs) auto

lemma map_of_collapse_last:
  "map_of (rev (map (\<lambda>f. (Key f, Value f)) (collapse_last fs))) =
   map_of (rev (map (\<lambda>f. (Key f, Value f)) fs))"
proof (induction fs)
  case Nil
  show ?case by simp
next
  case (Cons f fs)
  show ?case
  proof (cases "Key f \<in> Key ` set fs")
    case True
    then have "Key f \<in> dom (map_of (rev (map (\<lambda>f. (Key f, Value f)) fs)))"
      by (simp add: dom_map_of_conv_image_fst image_image)
    then have "map_of (rev (map (\<lambda>f. (Key f, Value f)) fs) @ [(Key f, Value f)]) =
               map_of (rev (map (\<lambda>f. (Key f, Value f)) fs))"
      by (auto simp add: fun_eq_iff map_add_def split: option.splits)
    with True Cons show ?thesis by simp
  next
    case False
    with Cons show ?thesis by simp
  qed
qed

lemma set_eq_of_map_of_eq:
  assumes "distinct (map fst xs)" and "distinct (map fst ys)" and "map_of xs = map_of ys"
  shows "set xs = set ys"
proof -
  have "\<And>k v. (k, v) \<in> set xs \<longleftrightarrow> (k, v) \<in> set ys"
    using assms by (metis map_of_eq_Some_iff)
  then show ?thesis by auto
qed

subsection \<open>Sorting the entries of a map\<close>

lemma map_insort_key: "map f (insort_key f x xs) = insort (f x) (map f xs)"
  by (induction xs) simp_all

lemma map_sort_key: "map f (sort_key f xs) = sort (map f xs)"
  by (induction xs) (simp_all add: map_insort_key)

lemma sort_key_fst_unique:
  assumes "distinct (map fst xs)" and "distinct (map fst ys)" and "set xs = set ys"
  shows "sort_key fst xs = sort_key fst ys"
proof (rule map_sorted_distinct_set_unique [where f = fst])
  from assms(1) have "inj_on fst (set xs)"
    by (simp add: distinct_map)
  with assms(3) show "inj_on fst (set (sort_key fst xs) \<union> set (sort_key fst ys))"
    by simp
  show "sorted (map fst (sort_key fst xs))" and "sorted (map fst (sort_key fst ys))"
    by simp_all
  from assms(1) show "distinct (map fst (sort_key fst xs))"
    by (simp add: map_sort_key)
  from assms(2) show "distinct (map fst (sort_key fst ys))"
    by (simp add: map_sort_key)
  from assms(3) show "set (sort_key fst xs) = set (sort_key fst ys)"
    by simp
qed

lemma json_Marshal_GoMap_cong:
  assumes "distinct (map fst xs)" and "distinct (map fst ys)" and "set xs = set ys"
  shows "json_Marshal q (GoMap xs) = json_Marshal q (GoMap ys)"
proof -
  let ?g = "\<lambda>kv. (fst kv, json_Marshal q (snd kv))"
  have "sort_key fst (map ?g xs) = sort_key fst (map ?g ys)"
  proof (rule sort_key_fst_unique)
    from assms(1) show "distinct (map fst (map ?g xs))" by (simp add: comp_def)
    from assms(2) show "distinct (map fst (map ?g ys))" by (simp add: comp_def)
    from assms(3) show "set (map ?g xs) = set (map ?g ys)" by simp
  qed
  then show ?thesis by simp
qed

lemma collapse_last_not_Nil: "fs \<noteq> [] \<Longrightarrow> collapse_last fs \<noteq> []"
proof (induction fs)
  case Nil
  then show ?case by simp
next
  case (Cons f fs)
  show ?case
  proof (cases "Key f \<in> Key ` set fs")
    case True
    then have "fs \<noteq> []" by auto
    with Cons True show ?thesis by simp
  next
    case False
    then show ?thesis by simp
  qed
qed

lemma json_Marshal_fieldMap_collapse:
  "json_Marshal q (GoMap (fieldMap (collapse_last fs))) = json_Marshal q (GoMap (fieldMap fs))"
proof (rule json_Marshal_GoMap_cong)
  show "distinct (map fst (fieldMap (collapse_last fs)))" and "distinct (map fst (fieldMap fs))"
    by (rule distinct_fieldMap)+
  show "set (fieldMap (collapse_last fs)) = set (fieldMap fs)"
    by (rule set_eq_of_map_of_eq) (simp_all add: distinct_fieldMap map_of_fieldMap map_of_collapse_last)
qed

lemma formatFieldsAsJSON_cong:
  assumes "fs = [] \<longleftrightarrow> gs = []"
    and "json_Marshal (json_string e) (GoMap (fieldMap fs)) =
         json_Marshal (json_string e) (GoMap (fieldMap gs))"
  shows "formatFieldsAsJSON e mk fs = formatFieldsAsJSON e mk gs"
  using assms by (simp add: formatFieldsAsJSON_def json_MarshalIndent_def)

subsection \<open>The document of a map\<close>

lemma collect_members_Inr:
  "collect_members q rs = Inr ms \<Longrightarrow>
   map fst ms = map (\<lambda>r. q (fst r)) rs \<and> map snd rs = map (\<lambda>m. Inr (snd m)) ms"
proof (induction q rs arbitrary: ms rule: collect_members.induct)
  case (1 q)
  then show ?case by simp
next
  case (2 q k err rs)
  then show ?case by simp
next
  case (3 q k j rs)
  then show ?case by (auto split: sum.splits)
qed

lemma collect_members_mem:
  "collect_members q rs = Inr ms \<Longrightarrow> (k, r) \<in> set rs \<Longrightarrow> \<exists>j. r = Inr j \<and> (q k, j) \<in> set ms"
proof (induction q rs arbitrary: ms rule: collect_members.induct)
  case (1 q)
  then show ?case by simp
next
  case (2 q k err rs)
  then show ?case by simp
next
  case (3 q k' j' rs)
  then show ?case by (auto split: sum.splits)
qed

lemma sort_keys_fieldMap: "sort (map fst (fieldMap fs)) = sort (remdups (map Key fs))"
proof (rule sorted_distinct_set_unique)
  show "distinct (sort (map fst (fieldMap fs)))"
    by (simp add: distinct_fieldMap)
  show "set (sort (map fst (fieldMap fs))) = set (sort (remdups (map Key fs)))"
    using keys_fieldMap [of fs] by simp
qed simp_all

lemma json_Marshal_fieldMap_Inr:
  assumes "json_Marshal q (GoMap (fieldMap fs)) = Inr doc"
  shows "\<exists>ms. doc = JObj ms \<and> length ms = length (fieldMap fs) \<and>
              map fst ms = map q (sort (remdups (map Key fs)))"
proof -
  let ?rs = "sort_key fst (map (\<lambda>kv. (fst kv, json_Marshal q (snd kv))) (fieldMap fs))"
  from assms obtain ms where ms: "collect_members q ?rs = Inr ms" and doc: "doc = JObj ms"
    by (auto split: sum.splits)
  from collect_members_Inr [OF ms] have keys: "map fst ms = map (\<lambda>r. q (fst r)) ?rs"
    by simp
  have "map fst ?rs = sort (map fst (fieldMap fs))"
    by (simp add: map_sort_key comp_def)
  then have "map (\<lambda>r. q (fst r)) ?rs = map q (sort (remdups (map Key fs)))"
    using sort_keys_fieldMap [of fs] map_map [of q fst ?rs] by (simp add: comp_def)
  with keys have "map fst ms = map q (sort (remdups (map Key fs)))"
    by simp
  moreover from keys have "length ms = length (fieldMap fs)"
    using length_map [of fst ms] by simp
  ultimately show ?thesis
    using doc by simp
qed

lemma formatFieldsAsJSON_Inr:
  assumes "fs \<noteq> []" and "json_Marshal (json_string e) (GoMap (fieldMap fs)) = Inr (JObj ms)"
    and "ms \<noteq> []"
  shows "formatFieldsAsJSON e mk fs =
           ''  {'' @ [LF] @ ''      '' @
           strings_Join
             (map (\<lambda>kj. indent_lines ''  '' (fst kj) @ '': '' @
                        indent_lines ''  '' (json_Indent ''  '' ''  '' (Suc 0) (snd kj))) ms)
             ('','' @ [LF] @ ''      '') @
           [LF] @ ''    }''"
proof -
  from assms(3) obtain m ms' where ms: "ms = m # ms'"
    by (cases ms) simp_all
  have nl1: "indent_lines ''  '' (json_newline ''  '' ''  '' (Suc 0)) = [LF] @ ''      ''"
    by (simp add: json_newline_def indent_lines_Cons LF_def)
  have nl0: "indent_lines ''  '' (json_newline ''  '' ''  '' 0) = [LF] @ ''    ''"
    by (simp add: json_newline_def indent_lines_Cons LF_def)
  have sep: "indent_lines ''  '' ('','' @ json_newline ''  '' ''  '' (Suc 0)) = '','' @ [LF] @ ''      ''"
    using nl1 by (simp add: indent_lines_Cons LF_def)
  have "formatFieldsAsJSON e mk fs = ''  '' @ indent_lines ''  '' (json_Indent ''  '' ''  '' 0 (JObj ms))"
    using assms(1,2) by (simp add: formatFieldsAsJSON_def json_MarshalIndent_def Split_Join_lines)
  also have "indent_lines ''  '' (json_Indent ''  '' ''  '' 0 (JObj ms)) =
      ''{'' @ ([LF] @ ''      '') @
      strings_Join
             (map (\<lambda>kj. indent_lines ''  '' (fst kj) @ '': '' @
                        indent_lines ''  '' (json_Indent ''  '' ''  '' (Suc 0) (snd kj))) ms)
             ('','' @ [LF] @ ''      '') @ ([LF] @ ''    '') @ ''}''"
    unfolding ms json_Indent.simps indent_lines_append indent_lines_Join nl1 nl0 sep
    by (simp add: indent_lines_Cons LF_def comp_def)
  finally show ?thesis by simp
qed

lemma strings_Split_no_sep: "sep \<notin> set s \<Longrightarrow> strings_Split s sep = [s]"
  by (induction s) auto

lemma strings_Split_append:
  "sep \<notin> set a \<Longrightarrow> strings_Split (a @ sep # b) sep = a # strings_Split b sep"
  by (induction a) auto

lemma sublist_in_middle: "sublist x m \<Longrightarrow> sublist x (a @ m @ b)"
proof -
  assume "sublist x m"
  then obtain ps ss where "m = ps @ x @ ss"
    by (auto simp add: sublist_def)
  then have "a @ m @ b = (a @ ps) @ x @ (ss @ b)"
    by simp
  then show ?thesis
    unfolding sublist_def by blast
qed

lemma map_of_fieldMap_last:
  assumes "Key f \<notin> Key ` set zs"
  shows "map_of (fieldMap (ys @ f # zs)) (Key f) = Some (Value f)"
proof -
  from assms have "map_of (rev (map (\<lambda>f. (Key f, Value f)) zs)) (Key f) = None"
    by (simp add: map_of_eq_None_iff image_image)
  then show ?thesis
    by (simp add: map_of_fieldMap map_add_def)
qed

lemma json_Marshal_drop_earlier:
  assumes "Key f1 = Key f2"
  shows "json_Marshal q (GoMap (fieldMap (xs @ f1 # ys @ f2 # zs))) =
         json_Marshal q (GoMap (fieldMap (xs @ ys @ f2 # zs)))"
proof (rule json_Marshal_GoMap_cong)
  show "distinct (map fst (fieldMap (xs @ f1 # ys @ f2 # zs)))"
    and "distinct (map fst (fieldMap (xs @ ys @ f2 # zs)))"
    by (rule distinct_fieldMap)+
  have "map_of (fieldMap (xs @ f1 # ys @ f2 # zs)) = map_of (fieldMap (xs @ ys @ f2 # zs))"
    using assms by (auto simp add: map_of_fieldMap fun_eq_iff map_add_def split: option.splits)
  then show "set (fieldMap (xs @ f1 # ys @ f2 # zs)) = set (fieldMap (xs @ ys @ f2 # zs))"
    by (rule set_eq_of_map_of_eq [OF distinct_fieldMap distinct_fieldMap])
qed

lemma formatFieldsAsJSON_contains_member:
  assumes ok: "json_Marshal (json_string e) (GoMap (fieldMap fs)) = Inr doc"
    and entry: "map_of (fieldMap fs) k = Some v"
  shows "\<exists>j. json_Marshal (json_string e) v = Inr j \<and>
             sublist (indent_lines ''  '' (json_string e k) @ '': '' @
                      indent_lines ''  '' (json_Indent ''  '' ''  '' (Suc 0) j))
                     (formatFieldsAsJSON e mk fs)"
proof -
  let ?q = "json_string e"
  let ?rs = "sort_key fst (map (\<lambda>kv. (fst kv, json_Marshal ?q (snd kv))) (fieldMap fs))"
  let ?F = "\<lambda>kj. indent_lines ''  '' (fst kj) @ '': '' @
                  indent_lines ''  '' (json_Indent ''  '' ''  '' (Suc 0) (snd kj))"
  from entry have mem: "(k, v) \<in> set (fieldMap fs)"
    by (rule map_of_SomeD)
  then have "fieldMap fs \<noteq> []" by auto
  then have fs: "fs \<noteq> []" by (auto simp add: fieldMap_def)
  from ok obtain ms where ms: "collect_members ?q ?rs = Inr ms" and doc: "doc = JObj ms"
    by (auto split: sum.splits)
  from mem have "(k, json_Marshal ?q v) \<in> set ?rs"
    by force
  from collect_members_mem [OF ms this] obtain j
    where j: "json_Marshal ?q v = Inr j" and member: "(?q k, j) \<in> set ms"
    by blast
  from member have "ms \<noteq> []" by auto
  from formatFieldsAsJSON_Inr [OF fs ok [unfolded doc] this]
  have block: "formatFieldsAsJSON e mk fs =
      (''  {'' @ [LF] @ ''      '') @ strings_Join (map ?F ms) ('','' @ [LF] @ ''      '') @
      ([LF] @ ''    }'')"
    by simp
  from member have "?F (?q k, j) \<in> ?F ` set ms"
    by (rule imageI)
  then have "?F (?q k, j) \<in> set (map ?F ms)"
    by simp
  then have "sublist (?F (?q k, j)) (strings_Join (map ?F ms) ('','' @ [LF] @ ''      ''))"
    by (rule sublist_strings_Join)
  then have "sublist (?F (?q k, j)) (formatFieldsAsJSON e mk fs)"
    unfolding block by (rule sublist_in_middle)
  with j show ?thesis by auto
qed

text \<open>
  C3, as amended. Serializing a field sequence equals serializing the sequence with
  duplicate keys collapsed to their last occurrence. An earlier field with the key of a
  later one has no effect on the block: the block is the same without it. When the
  values are encoded without error, the block contains, for the last field of a key, the
  key followed by the text of that field's value.
\<close>

theorem formatFieldsAsJSON_last_write_wins:
  "formatFieldsAsJSON e mk fs = formatFieldsAsJSON e mk (collapse_last fs) \<and>
   (Key f1 = Key f2 \<longrightarrow>
      formatFieldsAsJSON e mk (xs @ f1 # ys @ f2 # zs) =
      formatFieldsAsJSON e mk (xs @ ys @ f2 # zs)) \<and>
   (Key f2 \<notin> Key ` set zs \<longrightarrow>
    json_Marshal (json_string e) (GoMap (fieldMap (ys @ f2 # zs))) = Inr doc \<longrightarrow>
      (\<exists>j. json_Marshal (json_string e) (Value f2) = Inr j \<and>
           sublist (indent_lines ''  '' (json_string e (Key f2)) @ '': '' @
                    indent_lines ''  '' (json_Indent ''  '' ''  '' (Suc 0) j))
                   (formatFieldsAsJSON e mk (ys @ f2 # zs))))"
proof (intro conjI impI)
  show "formatFieldsAsJSON e mk fs = formatFieldsAsJSON e mk (collapse_last fs)"
  proof (rule formatFieldsAsJSON_cong)
    show "(fs = []) = (collapse_last fs = [])"
      using collapse_last_not_Nil [of fs] by auto
    show "json_Marshal (json_string e) (GoMap (fieldMap fs)) =
          json_Marshal (json_string e) (GoMap (fieldMap (collapse_last fs)))"
      by (rule json_Marshal_fieldMap_collapse [symmetric])
  qed
next
  assume "Key f1 = Key f2"
  then have "json_Marshal (json_string e) (GoMap (fieldMap (xs @ f1 # ys @ f2 # zs))) =
             json_Marshal (json_string e) (GoMap (fieldMap (xs @ ys @ f2 # zs)))"
    by (rule json_Marshal_drop_earlier)
  then show "formatFieldsAsJSON e mk (xs @ f1 # ys @ f2 # zs) =
             formatFieldsAsJSON e mk (xs @ ys @ f2 # zs)"
    by (rule formatFieldsAsJSON_cong [rotated]) simp
next
  assume last: "Key f2 \<notin> Key ` set zs"
    and ok: "json_Marshal (json_string e) (GoMap (fieldMap (ys @ f2 # zs))) = Inr doc"
  from last have "map_of (fieldMap (ys @ f2 # zs)) (Key f2) = Some (Value f2)"
    by (rule map_of_fieldMap_last)
  with ok show "\<exists>j. json_Marshal (json_string e) (Value f2) = Inr j \<and>
           sublist (indent_lines ''  '' (json_string e (Key f2)) @ '': '' @
                    indent_lines ''  '' (json_Indent ''  '' ''  '' (Suc 0) j))
                   (formatFieldsAsJSON e mk (ys @ f2 # zs))"
    by (rule formatFieldsAsJSON_contains_member)
qed

text \<open>
  C9. For a non-empty field sequence whose values are encoded without error, the block
  is the opening brace, one member for each key and the closing brace, and the members
  are in the strictly increasing (byte-wise lexicographic) order of their keys, whatever
  the order of the fields.
\<close>

theorem formatFieldsAsJSON_keys_sorted:
  assumes "fs \<noteq> []" and "json_Marshal (json_string e) (GoMap (fieldMap fs)) = Inr doc"
  shows "\<exists>js. length js = length (sort (remdups (map Key fs))) \<and>
              doc = JObj (zip (map (json_string e) (sort (remdups (map Key fs)))) js) \<and>
              formatFieldsAsJSON e mk fs =
                ''  {'' @ [LF] @ ''      '' @
                strings_Join
                  (map (\<lambda>kj. indent_lines ''  '' (json_string e (fst kj)) @ '': '' @
                             indent_lines ''  '' (json_Indent ''  '' ''  '' (Suc 0) (snd kj)))
                     (zip (sort (remdups (map Key fs))) js))
                  ('','' @ [LF] @ ''      '') @
                [LF] @ ''    }'' \<and>
              sorted_wrt (<) (sort (remdups (map Key fs))) \<and>
              set (sort (remdups (map Key fs))) = Key ` set fs"
proof -
  let ?q = "json_string e"
  let ?ks = "sort (remdups (map Key fs))"
  from json_Marshal_fieldMap_Inr [OF assms(2)] obtain ms
    where doc: "doc = JObj ms" and len: "length ms = length (fieldMap fs)"
      and keys: "map fst ms = map ?q ?ks"
    by blast
  from len assms(1) have "ms \<noteq> []"
    using fieldMap_not_Nil [of fs] by auto
  note block = formatFieldsAsJSON_Inr [OF assms(1) assms(2) [unfolded doc] this, of mk]
  have zip: "ms = zip (map ?q ?ks) (map snd ms)"
    using keys zip_map_fst_snd [of ms] by simp
  have len_js: "length (map snd ms) = length ?ks"
    using keys length_map [of fst ms] length_map [of ?q ?ks] by simp
  have "map (\<lambda>kj. indent_lines ''  '' (fst kj) @ '': '' @
                  indent_lines ''  '' (json_Indent ''  '' ''  '' (Suc 0) (snd kj))) ms =
        map (\<lambda>kj. indent_lines ''  '' (?q (fst kj)) @ '': '' @
                  indent_lines ''  '' (json_Indent ''  '' ''  '' (Suc 0) (snd kj)))
          (zip ?ks (map snd ms))"
    by (subst zip) (simp add: zip_map1 case_prod_beta comp_def)
  with block have shown: "formatFieldsAsJSON e mk fs =
                ''  {'' @ [LF] @ ''      '' @
                strings_Join
                  (map (\<lambda>kj. indent_lines ''  '' (?q (fst kj)) @ '': '' @
                             indent_lines ''  '' (json_Indent ''  '' ''  '' (Suc 0) (snd kj)))
                     (zip ?ks (map snd ms)))
                  ('','' @ [LF] @ ''      '') @
                [LF] @ ''    }''"
    by simp
  have strict: "sorted_wrt (<) ?ks"
    by (simp add: strict_sorted_iff)
  have "set ?ks = Key ` set fs"
    by simp
  with len_js doc zip shown strict show ?thesis
    by blast
qed

lemma json_string_env_example: "json_string env_example = quote_plain"
  by (simp add: env_example_def)

lemmas serializer_eval = formatFieldsAsJSON_def json_MarshalIndent_def fieldMap_def
  json_string_env_example quote_plain_def json_newline_def Itoa_eval LF_def DQ_def

text \<open>
  C2. On the two fields \<^verbatim>\<open>user_id = 12345\<close> and \<^verbatim>\<open>username = "john_doe"\<close> the
  serializer gives the keys six leading spaces and the closing brace four, since the
  prefix of two spaces is given to \<^verbatim>\<open>json.MarshalIndent\<close> and then added again to
  every line; the block is not the one with four and two spaces that the claim describes.
\<close>

theorem formatFieldsAsJSON_readme_block:
  "formatFieldsAsJSON env_example \<lparr>colorsEnabled = False\<rparr>
     [\<lparr>Key = ''user_id'', Value = GoInt 12345\<rparr>, \<lparr>Key = ''username'', Value = GoString ''john_doe''\<rparr>] =
     ''  {'' @ [LF] @
     ''      '' @ [DQ] @ ''user_id'' @ [DQ] @ '': 12345,'' @ [LF] @
     ''      '' @ [DQ] @ ''username'' @ [DQ] @ '': '' @ [DQ] @ ''john_doe'' @ [DQ] @ [LF] @
     ''    }'' \<and>
   formatFieldsAsJSON env_example \<lparr>colorsEnabled = False\<rparr>
     [\<lparr>Key = ''user_id'', Value = GoInt 12345\<rparr>, \<lparr>Key = ''username'', Value = GoString ''john_doe''\<rparr>] \<noteq>
     ''  {'' @ [LF] @
     ''    '' @ [DQ] @ ''user_id'' @ [DQ] @ '': 12345,'' @ [LF] @
     ''    '' @ [DQ] @ ''username'' @ [DQ] @ '': '' @ [DQ] @ ''john_doe'' @ [DQ] @ [LF] @
     ''  }''"
  by (simp add: serializer_eval)

text \<open>
  C7. When the values of a non-empty field sequence cannot be encoded, the serializer
  returns the fallback block: an opening brace after two spaces, the key \<^verbatim>\<open>"error"\<close>
  after four spaces with the description of the failure as its value, and a closing
  brace after two spaces; \<^verbatim>\<open>log\<close> writes its line and this block, and no error comes
  out of it.
\<close>

theorem formatFieldsAsJSON_fallback:
  assumes "fs \<noteq> []"
    and "json_MarshalIndent (json_string e) (GoMap (fieldMap fs)) ''  '' ''  '' = Inl err"
  shows "formatFieldsAsJSON e mk fs =
           ''  {'' @ [LF] @
           ''    '' @ [DQ] @ ''error'' @ [DQ] @ '': '' @ [DQ] @
             ''failed to marshal fields: '' @ json_error_Error err @ [DQ] @ [LF] @
           ''  }'' \<and>
         (LF \<notin> set (json_error_Error err) \<longrightarrow>
            strings_Split (formatFieldsAsJSON e mk fs) LF =
              [''  {'',
               ''    '' @ [DQ] @ ''error'' @ [DQ] @ '': '' @ [DQ] @
                 ''failed to marshal fields: '' @ json_error_Error err @ [DQ],
               ''  }'']) \<and>
         log e mk level color msg fs =
           [hd (log e mk level color msg []),
            ColorizeIfEnabled (icon_chart @ '' '') (colorsEnabled mk) BrightMagenta [] @ '' '' @
            ColorizeIfEnabled ''Fields:'' (colorsEnabled mk) BrightWhite [] @ [LF] @
            ColorizeIfEnabled (formatFieldsAsJSON e mk fs) (colorsEnabled mk) BrightBlack [] @ [LF]]"
proof -
  let ?entry = "''    '' @ [DQ] @ ''error'' @ [DQ] @ '': '' @ [DQ] @
                 ''failed to marshal fields: '' @ json_error_Error err @ [DQ]"
  from assms have block: "formatFieldsAsJSON e mk fs = ''  {'' @ LF # ?entry @ LF # ''  }''"
    by (simp add: formatFieldsAsJSON_def)
  have lines: "strings_Split (formatFieldsAsJSON e mk fs) LF = [''  {'', ?entry, ''  }'']"
    if "LF \<notin> set (json_error_Error err)"
  proof -
    have first_line: "LF \<notin> set ''  {''" and last_line: "LF \<notin> set ''  }''"
      by (simp_all add: LF_def)
    from that have entry: "LF \<notin> set ?entry"
      by (simp add: LF_def DQ_def)
    have e1: "strings_Split (''  {'' @ LF # ?entry @ LF # ''  }'') LF =
              ''  {'' # strings_Split (?entry @ LF # ''  }'') LF"
      using first_line by (rule strings_Split_append)
    have e2: "strings_Split (?entry @ LF # ''  }'') LF = ?entry # strings_Split ''  }'' LF"
      using entry by (rule strings_Split_append)
    have e3: "strings_Split ''  }'' LF = [''  }'']"
      using last_line by (rule strings_Split_no_sep)
    show ?thesis
      unfolding block e1 e2 e3 by (rule refl)
  qed
  obtain f l g where caller: "getCallerInfo e 3 = (f, l, g)"
    by (cases "getCallerInfo e 3") auto
  from assms(1) have writes: "log e mk level color msg fs =
           [hd (log e mk level color msg []),
            ColorizeIfEnabled (icon_chart @ '' '') (colorsEnabled mk) BrightMagenta [] @ '' '' @
            ColorizeIfEnabled ''Fields:'' (colorsEnabled mk) BrightWhite [] @ [LF] @
            ColorizeIfEnabled (formatFieldsAsJSON e mk fs) (colorsEnabled mk) BrightBlack [] @ [LF]]"
    by (simp add: log_first_write [OF caller])
  from block lines writes show ?thesis
    by simp
qed

theorem formatFieldsAsJSON_fallback_witness:
  "[\<lparr>Key = ''conn'', Value = GoUnsupported ''chan int''\<rparr>] \<noteq> [] \<and>
   json_MarshalIndent (json_string env_example)
     (GoMap (fieldMap [\<lparr>Key = ''conn'', Value = GoUnsupported ''chan int''\<rparr>])) ''  '' ''  '' =
     Inl (UnsupportedTypeError ''chan int'') \<and>
   formatFieldsAsJSON env_example \<lparr>colorsEnabled = False\<rparr>
     [\<lparr>Key = ''conn'', Value = GoUnsupported ''chan int''\<rparr>] =
     ''  {'' @ [LF] @
     ''    '' @ [DQ] @ ''error'' @ [DQ] @ '': '' @ [DQ] @
       ''failed to marshal fields: json: unsupported type: chan int'' @ [DQ] @ [LF] @
     ''  }'' \<and>
   strings_Split (formatFieldsAsJSON env_example \<lparr>colorsEnabled = False\<rparr>
     [\<lparr>Key = ''conn'', Value = GoUnsupported ''chan int''\<rparr>]) LF =
     [''  {'',
      ''    '' @ [DQ] @ ''error'' @ [DQ] @ '': '' @ [DQ] @
        ''failed to marshal fields: json: unsupported type: chan int'' @ [DQ],
      ''  }''] \<and>
   length (log env_example \<lparr>colorsEnabled = False\<rparr> LevelError Red ''query failed''
     [\<lparr>Key = ''conn'', Value = GoUnsupported ''chan int''\<rparr>]) = 2"
proof -
  let ?fs = "[\<lparr>Key = ''conn'', Value = GoUnsupported ''chan int''\<rparr>]"
  have h1: "?fs \<noteq> []" by simp
  have h2: "json_MarshalIndent (json_string env_example) (GoMap (fieldMap ?fs)) ''  '' ''  '' =
            Inl (UnsupportedTypeError ''chan int'')"
    by (simp add: json_MarshalIndent_def fieldMap_def)
  note T = formatFieldsAsJSON_fallback [OF h1 h2,
      of "\<lparr>colorsEnabled = False\<rparr>" LevelError Red "''query failed''"]
  have no_break: "LF \<notin> set (json_error_Error (UnsupportedTypeError ''chan int''))"
    by (simp add: LF_def)
  note block = T [THEN conjunct1]
  note lines = T [THEN conjunct2, THEN conjunct1, THEN mp, OF no_break]
  note writes = T [THEN conjunct2, THEN conjunct2]
  have two: "length (log env_example \<lparr>colorsEnabled = False\<rparr> LevelError Red ''query failed'' ?fs) = 2"
    unfolding writes by simp
  from h1 h2 block lines two show ?thesis
    by simp
qed

theorem formatFieldsAsJSON_last_write_wins_witness:
  "formatFieldsAsJSON env_example \<lparr>colorsEnabled = False\<rparr>
     [\<lparr>Key = ''a'', Value = GoInt 1\<rparr>, \<lparr>Key = ''b'', Value = GoBool True\<rparr>, \<lparr>Key = ''a'', Value = GoInt 2\<rparr>] =
   formatFieldsAsJSON env_example \<lparr>colorsEnabled = False\<rparr>
     (collapse_last
       [\<lparr>Key = ''a'', Value = GoInt 1\<rparr>, \<lparr>Key = ''b'', Value = GoBool True\<rparr>, \<lparr>Key = ''a'', Value = GoInt 2\<rparr>]) \<and>
   collapse_last
     [\<lparr>Key = ''a'', Value = GoInt 1\<rparr>, \<lparr>Key = ''b'', Value = GoBool True\<rparr>, \<lparr>Key = ''a'', Value = GoInt 2\<rparr>] =
     [\<lparr>Key = ''b'', Value = GoBool True\<rparr>, \<lparr>Key = ''a'', Value = GoInt 2\<rparr>] \<and>
   Key \<lparr>Key = ''a'', Value = GoInt 1\<rparr> = Key \<lparr>Key = ''a'', Value = GoInt 2\<rparr> \<and>
   formatFieldsAsJSON env_example \<lparr>colorsEnabled = False\<rparr>
     [\<lparr>Key = ''a'', Value = GoInt 1\<rparr>, \<lparr>Key = ''b'', Value = GoBool True\<rparr>, \<lparr>Key = ''a'', Value = GoInt 2\<rparr>] =
   formatFieldsAsJSON env_example \<lparr>colorsEnabled = False\<rparr>
     [\<lparr>Key = ''b'', Value = GoBool True\<rparr>, \<lparr>Key = ''a'', Value = GoInt 2\<rparr>] \<and>
   Key \<lparr>Key = ''a'', Value = GoInt 2\<rparr> \<notin> Key ` set [] \<and>
   json_Marshal (json_string env_example)
     (GoMap (fieldMap [\<lparr>Key = ''b'', Value = GoBool True\<rparr>, \<lparr>Key = ''a'', Value = GoInt 2\<rparr>])) =
     Inr (JObj [(quote_plain ''a'', JLit ''2''), (quote_plain ''b'', JLit ''true'')]) \<and>
   sublist ([DQ] @ ''a'' @ [DQ] @ '': 2'')
     (formatFieldsAsJSON env_example \<lparr>colorsEnabled = False\<rparr>
        [\<lparr>Key = ''b'', Value = GoBool True\<rparr>, \<lparr>Key = ''a'', Value = GoInt 2\<rparr>]) \<and>
   formatFieldsAsJSON env_example \<lparr>colorsEnabled = False\<rparr>
     [\<lparr>Key = ''a'', Value = GoInt 1\<rparr>, \<lparr>Key = ''b'', Value = GoBool True\<rparr>, \<lparr>Key = ''a'', Value = GoInt 2\<rparr>] =
     ''  {'' @ [LF] @
     ''      '' @ [DQ] @ ''a'' @ [DQ] @ '': 2,'' @ [LF] @
     ''      '' @ [DQ] @ ''b'' @ [DQ] @ '': true'' @ [LF] @
     ''    }''"
proof -
  let ?mk = "\<lparr>colorsEnabled = False\<rparr>"
  let ?f1 = "\<lparr>Key = ''a'', Value = GoInt 1\<rparr>"
  let ?b = "\<lparr>Key = ''b'', Value = GoBool True\<rparr>"
  let ?f2 = "\<lparr>Key = ''a'', Value = GoInt 2\<rparr>"
  let ?doc = "JObj [(quote_plain ''a'', JLit ''2''), (quote_plain ''b'', JLit ''true'')]"
  note T = formatFieldsAsJSON_last_write_wins
    [of env_example ?mk "[?f1, ?b, ?f2]" ?f1 ?f2 "[]" "[?b]" "[]" ?doc]
  have same_key: "Key ?f1 = Key ?f2" by simp
  have is_last: "Key ?f2 \<notin> Key ` set []" by simp
  have ok: "json_Marshal (json_string env_example) (GoMap (fieldMap ([?b] @ ?f2 # []))) = Inr ?doc"
    by (simp add: fieldMap_def json_string_env_example Itoa_eval)
  have collapsed: "collapse_last [?f1, ?b, ?f2] = [?b, ?f2]"
    by simp
  note w1 = T [THEN conjunct1]
  note w2 = T [THEN conjunct2, THEN conjunct1, THEN mp, OF same_key]
  note w3 = T [THEN conjunct2, THEN conjunct2, THEN mp, THEN mp, OF is_last ok]
  from w2 have dropped: "formatFieldsAsJSON env_example ?mk [?f1, ?b, ?f2] =
      formatFieldsAsJSON env_example ?mk [?b, ?f2]"
    by simp
  from w3 have shown: "sublist ([DQ] @ ''a'' @ [DQ] @ '': 2'')
      (formatFieldsAsJSON env_example ?mk [?b, ?f2])"
    by (simp add: json_string_env_example quote_plain_def Itoa_eval indent_lines_Cons DQ_def LF_def)
  have block: "formatFieldsAsJSON env_example ?mk [?b, ?f2] =
     ''  {'' @ [LF] @
     ''      '' @ [DQ] @ ''a'' @ [DQ] @ '': 2,'' @ [LF] @
     ''      '' @ [DQ] @ ''b'' @ [DQ] @ '': true'' @ [LF] @
     ''    }''"
    by (simp add: serializer_eval)
  from ok have ok': "json_Marshal (json_string env_example) (GoMap (fieldMap [?b, ?f2])) = Inr ?doc"
    by simp
  from w1 same_key is_last ok' shown collapsed dropped block show ?thesis
    by simp
qed

text \<open>
  C3 as stated fails twice. With the fields \<^verbatim>\<open>a = 1\<close>, \<^verbatim>\<open>a = 2\<close> and a channel
  under \<^verbatim>\<open>b\<close> the encoding fails and the fallback block is returned, which does not
  contain the text \<^verbatim>\<open>2\<close> of the last value of \<^verbatim>\<open>a\<close>. With the fields
  \<^verbatim>\<open>a = 1\<close>, \<^verbatim>\<open>b = 1\<close> and \<^verbatim>\<open>a = 2\<close> the block contains the text \<^verbatim>\<open>1\<close> of the
  earlier value of \<^verbatim>\<open>a\<close>, as the value of \<^verbatim>\<open>b\<close>.
\<close>

theorem formatFieldsAsJSON_last_write_wins_counterexample:
  "json_Marshal (json_string env_example) (GoInt 1) = Inr (JLit ''1'') \<and>
   json_Marshal (json_string env_example) (GoInt 2) = Inr (JLit ''2'') \<and>
   formatFieldsAsJSON env_example \<lparr>colorsEnabled = False\<rparr>
     [\<lparr>Key = ''a'', Value = GoInt 1\<rparr>, \<lparr>Key = ''a'', Value = GoInt 2\<rparr>,
      \<lparr>Key = ''b'', Value = GoUnsupported ''chan int''\<rparr>] =
     ''  {'' @ [LF] @
     ''    '' @ [DQ] @ ''error'' @ [DQ] @ '': '' @ [DQ] @
       ''failed to marshal fields: json: unsupported type: chan int'' @ [DQ] @ [LF] @
     ''  }'' \<and>
   \<not> sublist ''2''
     (formatFieldsAsJSON env_example \<lparr>colorsEnabled = False\<rparr>
        [\<lparr>Key = ''a'', Value = GoInt 1\<rparr>, \<lparr>Key = ''a'', Value = GoInt 2\<rparr>,
         \<lparr>Key = ''b'', Value = GoUnsupported ''chan int''\<rparr>]) \<and>
   formatFieldsAsJSON env_example \<lparr>colorsEnabled = False\<rparr>
     [\<lparr>Key = ''a'', Value = GoInt 1\<rparr>, \<lparr>Key = ''b'', Value = GoInt 1\<rparr>,
      \<lparr>Key = ''a'', Value = GoInt 2\<rparr>] =
     ''  {'' @ [LF] @
     ''      '' @ [DQ] @ ''a'' @ [DQ] @ '': 2,'' @ [LF] @
     ''      '' @ [DQ] @ ''b'' @ [DQ] @ '': 1'' @ [LF] @
     ''    }'' \<and>
   sublist ''1''
     (formatFieldsAsJSON env_example \<lparr>colorsEnabled = False\<rparr>
        [\<lparr>Key = ''a'', Value = GoInt 1\<rparr>, \<lparr>Key = ''b'', Value = GoInt 1\<rparr>,
         \<lparr>Key = ''a'', Value = GoInt 2\<rparr>])"
proof -
  let ?mk = "\<lparr>colorsEnabled = False\<rparr>"
  let ?failing = "[\<lparr>Key = ''a'', Value = GoInt 1\<rparr>, \<lparr>Key = ''a'', Value = GoInt 2\<rparr>,
      \<lparr>Key = ''b'', Value = GoUnsupported ''chan int''\<rparr>]"
  let ?overlap = "[\<lparr>Key = ''a'', Value = GoInt 1\<rparr>, \<lparr>Key = ''b'', Value = GoInt 1\<rparr>,
      \<lparr>Key = ''a'', Value = GoInt 2\<rparr>]"
  have one: "json_Marshal (json_string env_example) (GoInt 1) = Inr (JLit ''1'')"
    and two: "json_Marshal (json_string env_example) (GoInt 2) = Inr (JLit ''2'')"
    by (simp_all add: Itoa_eval)
  have fallback: "formatFieldsAsJSON env_example ?mk ?failing =
     ''  {'' @ [LF] @
     ''    '' @ [DQ] @ ''error'' @ [DQ] @ '': '' @ [DQ] @
       ''failed to marshal fields: json: unsupported type: chan int'' @ [DQ] @ [LF] @
     ''  }''"
    by (simp add: serializer_eval)
  have "CHR ''2'' \<notin> set (formatFieldsAsJSON env_example ?mk ?failing)"
    unfolding fallback by (simp add: LF_def DQ_def)
  then have absent: "\<not> sublist ''2'' (formatFieldsAsJSON env_example ?mk ?failing)"
    using set_mono_sublist [of "''2''" "formatFieldsAsJSON env_example ?mk ?failing"] by auto
  have block: "formatFieldsAsJSON env_example ?mk ?overlap =
     ''  {'' @ [LF] @
     ''      '' @ [DQ] @ ''a'' @ [DQ] @ '': 2,'' @ [LF] @
     ''      '' @ [DQ] @ ''b'' @ [DQ] @ '': 1'' @ [LF] @
     ''    }''"
    by (simp add: serializer_eval)
  have "sublist ''1''
     ((''  {'' @ [LF] @ ''      '' @ [DQ] @ ''a'' @ [DQ] @ '': 2,'' @ [LF] @
       ''      '' @ [DQ] @ ''b'' @ [DQ] @ '': '') @ ''1'' @ ([LF] @ ''    }''))"
    by (rule sublist_appendI)
  then have present: "sublist ''1'' (formatFieldsAsJSON env_example ?mk ?overlap)"
    unfolding block by simp
  from one two fallback absent block present show ?thesis
    by (intro conjI)
qed

theorem formatFieldsAsJSON_keys_sorted_witness:
  "[\<lparr>Key = ''zeta'', Value = GoInt 1\<rparr>, \<lparr>Key = ''alpha'', Value = GoBool True\<rparr>,
    \<lparr>Key = ''mid'', Value = GoString ''x''\<rparr>] \<noteq> [] \<and>
   json_Marshal (json_string env_example)
     (GoMap (fieldMap [\<lparr>Key = ''zeta'', Value = GoInt 1\<rparr>, \<lparr>Key = ''alpha'', Value = GoBool True\<rparr>,
        \<lparr>Key = ''mid'', Value = GoString ''x''\<rparr>])) =
     Inr (JObj [(quote_plain ''alpha'', JLit ''true''), (quote_plain ''mid'', JLit (quote_plain ''x'')),
                (quote_plain ''zeta'', JLit ''1'')]) \<and>
   sort (remdups (map Key [\<lparr>Key = ''zeta'', Value = GoInt 1\<rparr>, \<lparr>Key = ''alpha'', Value = GoBool True\<rparr>,
        \<lparr>Key = ''mid'', Value = GoString ''x''\<rparr>])) = [''alpha'', ''mid'', ''zeta''] \<and>
   formatFieldsAsJSON env_example \<lparr>colorsEnabled = False\<rparr>
     [\<lparr>Key = ''zeta'', Value = GoInt 1\<rparr>, \<lparr>Key = ''alpha'', Value = GoBool True\<rparr>,
      \<lparr>Key = ''mid'', Value = GoString ''x''\<rparr>] =
     ''  {'' @ [LF] @
     ''      '' @ [DQ] @ ''alpha'' @ [DQ] @ '': true,'' @ [LF] @
     ''      '' @ [DQ] @ ''mid'' @ [DQ] @ '': '' @ [DQ] @ ''x'' @ [DQ] @ '','' @ [LF] @
     ''      '' @ [DQ] @ ''zeta'' @ [DQ] @ '': 1'' @ [LF] @
     ''    }''"
proof -
  let ?mk = "\<lparr>colorsEnabled = False\<rparr>"
  let ?fs = "[\<lparr>Key = ''zeta'', Value = GoInt 1\<rparr>, \<lparr>Key = ''alpha'', Value = GoBool True\<rparr>,
    \<lparr>Key = ''mid'', Value = GoString ''x''\<rparr>]"
  let ?j1 = "JLit ''true''" and ?j2 = "JLit (quote_plain ''x'')" and ?j3 = "JLit ''1''"
  have h1: "?fs \<noteq> []" by simp
  have h2: "json_Marshal (json_string env_example) (GoMap (fieldMap ?fs)) =
     Inr (JObj [(quote_plain ''alpha'', ?j1), (quote_plain ''mid'', ?j2), (quote_plain ''zeta'', ?j3)])"
    by (simp add: fieldMap_def json_string_env_example Itoa_eval)
  have keys: "sort (remdups (map Key ?fs)) = [''alpha'', ''mid'', ''zeta'']"
    by simp
  from formatFieldsAsJSON_keys_sorted [OF h1 h2, of ?mk, unfolded keys] obtain js
    where len: "length js = length [''alpha'', ''mid'', ''zeta'']"
      and doc: "JObj [(quote_plain ''alpha'', ?j1), (quote_plain ''mid'', ?j2), (quote_plain ''zeta'', ?j3)] =
                JObj (zip (map (json_string env_example) [''alpha'', ''mid'', ''zeta'']) js)"
      and block: "formatFieldsAsJSON env_example ?mk ?fs =
                ''  {'' @ [LF] @ ''      '' @
                strings_Join
                  (map (\<lambda>kj. indent_lines ''  '' (json_string env_example (fst kj)) @ '': '' @
                             indent_lines ''  '' (json_Indent ''  '' ''  '' (Suc 0) (snd kj)))
                     (zip [''alpha'', ''mid'', ''zeta''] js))
                  ('','' @ [LF] @ ''      '') @
                [LF] @ ''    }''"
    by blast
  from len obtain a b c where js: "js = [a, b, c]"
    by (auto simp add: length_Suc_conv numeral_3_eq_3)
  from doc have "js = [?j1, ?j2, ?j3]"
    unfolding js by simp
  with block have "formatFieldsAsJSON env_example ?mk ?fs =
     ''  {'' @ [LF] @
     ''      '' @ [DQ] @ ''alpha'' @ [DQ] @ '': true,'' @ [LF] @
     ''      '' @ [DQ] @ ''mid'' @ [DQ] @ '': '' @ [DQ] @ ''x'' @ [DQ] @ '','' @ [LF] @
     ''      '' @ [DQ] @ ''zeta'' @ [DQ] @ '': 1'' @ [LF] @
     ''    }''"
    by (simp add: json_string_env_example quote_plain_def indent_lines_Cons DQ_def LF_def)
  with h1 h2 keys show ?thesis
    by simp
qed

end
